theory Spec2Isabelle
  imports Main "HOL-Library.AList"
begin

section \<open>Python strings\<close>

text \<open>
  A Python \<open>str\<close> is a sequence of Unicode code points and \<open>len\<close> counts code points, so a
  string is modelled as a list of code points. \<open>lit\<close> turns an ASCII literal of the source
  into that representation.
\<close>

type_synonym pystr = "nat list"

definition lit :: "string \<Rightarrow> pystr" where
  "lit s = map of_char s"

text \<open>
  \<open>str.isspace\<close> for one code point: the characters that \<open>str.strip()\<close> without
  argument removes (CPython's whitespace table).
\<close>

definition isspace :: "nat \<Rightarrow> bool" where
  "isspace c = ((9 \<le> c \<and> c \<le> 13) \<or> (28 \<le> c \<and> c \<le> 32) \<or> c = 133 \<or> c = 160
     \<or> c = 5760 \<or> (8192 \<le> c \<and> c \<le> 8202) \<or> c = 8232 \<or> c = 8233 \<or> c = 8239
     \<or> c = 8287 \<or> c = 12288)"

text \<open>\<open>s.strip()\<close>: leading and trailing whitespace removed.\<close>

definition strip :: "pystr \<Rightarrow> pystr" where
  "strip s = rev (dropWhile isspace (rev (dropWhile isspace s)))"

text \<open>\<open>s.startswith(p)\<close> and \<open>s.endswith(p)\<close>.\<close>

fun startswith :: "pystr \<Rightarrow> pystr \<Rightarrow> bool" where
  "startswith s [] = True"
| "startswith [] (p # ps) = False"
| "startswith (c # cs) (p # ps) = (c = p \<and> startswith cs ps)"

definition endswith :: "pystr \<Rightarrow> pystr \<Rightarrow> bool" where
  "endswith s p = startswith (rev s) (rev p)"

text \<open>\<open>sub in s\<close>: \<open>sub\<close> occurs in \<open>s\<close> as a contiguous substring.\<close>

fun contains :: "pystr \<Rightarrow> pystr \<Rightarrow> bool" where
  "contains sub [] = (sub = [])"
| "contains sub (c # cs) = (startswith (c # cs) sub \<or> contains sub cs)"

text \<open>
  \<open>s.split(sep)\<close> for a separator of one character: the pieces between the separators,
  always at least one piece. \<open>cur\<close> holds the piece being read, reversed.
\<close>

fun split_acc :: "nat \<Rightarrow> pystr \<Rightarrow> pystr \<Rightarrow> pystr list" where
  "split_acc sep cur [] = [rev cur]"
| "split_acc sep cur (c # cs) =
     (if c = sep then rev cur # split_acc sep [] cs else split_acc sep (c # cur) cs)"

definition split :: "pystr \<Rightarrow> nat \<Rightarrow> pystr list" where
  "split s sep = split_acc sep [] s"

text \<open>
  \<open>s.replace(old, new)\<close> for a non-empty \<open>old\<close>: the occurrences of \<open>old\<close> are found from
  left to right without overlap. (With an empty \<open>old\<close> Python inserts \<open>new\<close> around every
  character; the program never does that, and the model returns \<open>s\<close> there.)
\<close>

function replace :: "pystr \<Rightarrow> pystr \<Rightarrow> pystr \<Rightarrow> pystr" where
  "replace [] old new = []"
| "replace (c # cs) old new =
     (if old \<noteq> [] \<and> startswith (c # cs) old
      then new @ replace (drop (length old) (c # cs)) old new
      else c # replace cs old new)"
  by pat_completeness auto
termination
  by (relation "measure (\<lambda>(s, old, new). length s)") (auto simp: neq_Nil_conv)

section \<open>The description resolver\<close>

text \<open>The two docstring markers: three double quotes, three single quotes.\<close>

definition dq3 :: pystr where
  "dq3 = lit ''\"\"\"''"

definition sq3 :: pystr where
  "sq3 = replicate 3 (of_char (CHR 0x27))"

text \<open>The fallback dictionary \<open>descriptions\<close> of \<open>get_module_description\<close>, in source order.\<close>

definition descriptions :: "(pystr \<times> pystr) list" where
  "descriptions =
    [(lit ''cli'', lit ''CLI with argument parsing''),
     (lit ''config'', lit ''Configuration & environment''),
     (lit ''data_loader'', lit ''Data ingestion & parsing''),
     (lit ''index_manager'', lit ''Vector indexing & storage''),
     (lit ''ageny'', lit ''AI agent & query engines''),
     (lit ''google_llm_init'', lit ''Google Gemini LLM setup''),
     (lit ''custom_console'', lit ''Console UI & formatting'')]"

text \<open>
  The loop over the lines of \<open>get_module_description\<close>: each line is stripped; the first one
  that contains a marker ends the function with its description (\<open>Some\<close>); \<open>None\<close> when the
  loop runs to its end.
\<close>

fun scan_lines :: "pystr list \<Rightarrow> pystr option" where
  "scan_lines [] = None"
| "scan_lines (l # rest) =
     (let line = strip l in
      if contains dq3 line \<or> contains sq3 line then
        (let desc = strip (replace (replace line dq3 []) sq3 []) in
         Some (if length desc > 40 then take 40 desc @ lit ''...'' else desc))
      else scan_lines rest)"

definition get_module_description :: "pystr \<Rightarrow> pystr \<Rightarrow> pystr" where
  "get_module_description content module_name =
     (let lines = take 5 (split content 10) in
      case scan_lines lines of
        Some d \<Rightarrow> d
      | None \<Rightarrow>
          (case map_of descriptions module_name of
             Some d \<Rightarrow> d
           | None \<Rightarrow> module_name @ lit '' module''))"

section \<open>Syntax trees\<close>

text \<open>
  The part of Python's \<open>ast\<close> nodes that \<open>analyze_codebase\<close> looks at: the class of a node
  (\<open>ast.FunctionDef\<close> and \<open>ast.ClassDef\<close> with their \<open>name\<close>; every other class, such as
  \<open>Module\<close>, \<open>AsyncFunctionDef\<close> or \<open>Assign\<close>, is \<open>OtherNode\<close>) and its child nodes in the
  order of \<open>ast.iter_child_nodes\<close>.
\<close>

datatype node_kind = FunctionDef pystr | ClassDef pystr | OtherNode

datatype ast = Node node_kind "ast list"

fun ast_size :: "ast \<Rightarrow> nat" where
  "ast_size (Node k cs) = Suc (sum_list (map ast_size cs))"

text \<open>
  \<open>ast.walk\<close>: a queue starts with the root; the first node is taken off, its children are
  put at the end, and the node is yielded, until the queue is empty (breadth first).
\<close>

function walk_queue :: "ast list \<Rightarrow> ast list" where
  "walk_queue [] = []"
| "walk_queue (Node k cs # todo) = Node k cs # walk_queue (todo @ cs)"
  by pat_completeness auto
termination
  by (relation "measure (\<lambda>todo. sum_list (map ast_size todo))") auto

definition walk :: "ast \<Rightarrow> ast list" where
  "walk tree = walk_queue [tree]"

text \<open>The two list comprehensions over \<open>ast.walk(tree)\<close>.\<close>

fun function_names :: "ast list \<Rightarrow> pystr list" where
  "function_names [] = []"
| "function_names (Node (FunctionDef n) cs # ns) = n # function_names ns"
| "function_names (Node k cs # ns) = function_names ns"

fun class_names :: "ast list \<Rightarrow> pystr list" where
  "class_names [] = []"
| "class_names (Node (ClassDef n) cs # ns) = n # class_names ns"
| "class_names (Node k cs # ns) = class_names ns"


section \<open>The source scanner\<close>

text \<open>
  One entry of the scanned directory, as \<open>Path.glob\<close> yields it: \<open>str(py_file)\<close>,
  \<open>py_file.name\<close>, and what opening and reading the file as UTF-8 gives: the text, or the
  message of the exception raised (a directory, a file without read permission, bytes that
  are not UTF-8).
\<close>

record dir_entry =
  entry_path :: pystr
  entry_name :: pystr
  entry_read :: "pystr + pystr"

text \<open>
  The file system: a path that does not exist is \<open>None\<close>, one that exists has the entries
  directly inside it, in the order the directory is listed.
\<close>

type_synonym filesystem = "pystr \<Rightarrow> dir_entry list option"

text \<open>\<open>ast.parse\<close> is a parameter: the tree, or the message of the exception raised.\<close>

type_synonym parser = "pystr \<Rightarrow> pystr + ast"

text \<open>\<open>src_path.glob("*.py")\<close>: the entries whose name ends in \<open>.py\<close>.\<close>

definition glob_py :: "dir_entry list \<Rightarrow> dir_entry list" where
  "glob_py es = filter (\<lambda>e. endswith (entry_name e) (lit ''.py'')) es"

text \<open>
  \<open>s.rfind(c)\<close> for one character (\<open>None\<close> for Python's -1), and pathlib's
  \<open>PurePath.stem\<close>: the name without its last suffix, where a dot that starts or ends the
  name begins no suffix.
\<close>

fun rfind :: "pystr \<Rightarrow> nat \<Rightarrow> nat option" where
  "rfind [] c = None"
| "rfind (x # xs) c =
     (case rfind xs c of
        Some i \<Rightarrow> Some (Suc i)
      | None \<Rightarrow> if x = c then Some 0 else None)"

definition stem :: "pystr \<Rightarrow> pystr" where
  "stem name =
     (case rfind name 46 of
        None \<Rightarrow> name
      | Some i \<Rightarrow> if 0 < i \<and> Suc i < length name then take i name else name)"

text \<open>
  The dictionary built for one module: one field for each of its keys \<open>'file'\<close>,
  \<open>'description'\<close>, \<open>'functions'\<close> and \<open>'classes'\<close>.
\<close>

record module_info =
  info_file :: pystr
  info_description :: pystr
  info_functions :: "pystr list"
  info_classes :: "pystr list"

text \<open>
  \<open>modules\<close> is a Python dictionary: keys in insertion order, and an assignment to a key
  that is present replaces its value in place (\<open>AList.update\<close>).
\<close>

type_synonym modules = "(pystr \<times> module_info) list"

text \<open>The line printed by the \<open>except\<close> branch.\<close>

definition warn_file :: "dir_entry \<Rightarrow> pystr \<Rightarrow> pystr" where
  "warn_file py_file e = lit ''Warning: Could not analyze '' @ entry_path py_file @ lit '': '' @ e"

text \<open>
  The \<open>for\<close> loop of \<open>analyze_codebase\<close> over the globbed entries; the state is the lines
  printed so far and \<open>modules\<close>. The \<open>try\<close> block raises where reading or parsing does, and
  the \<open>except\<close> branch prints the warning and goes on with the next file.
\<close>

fun scan_files :: "parser \<Rightarrow> dir_entry list \<Rightarrow> pystr list \<times> modules \<Rightarrow> pystr list \<times> modules" where
  "scan_files parse [] st = st"
| "scan_files parse (py_file # rest) (out, mods) =
     (if startswith (entry_name py_file) (lit ''__'') then scan_files parse rest (out, mods)
      else
        (let module_name = stem (entry_name py_file) in
         case entry_read py_file of
           Inl e \<Rightarrow> scan_files parse rest (out @ [warn_file py_file e], mods)
         | Inr content \<Rightarrow>
             (case parse content of
                Inl e \<Rightarrow> scan_files parse rest (out @ [warn_file py_file e], mods)
              | Inr tree \<Rightarrow>
                  (let funs = function_names (walk tree);
                       clss = class_names (walk tree);
                       desc = get_module_description content module_name
                   in scan_files parse rest
                        (out,
                         AList.update module_name
                           \<lparr>info_file = lit ''src/'' @ entry_name py_file,
                            info_description = desc,
                            info_functions = take 3 funs,
                            info_classes = take 2 clss\<rparr> mods)))))"

text \<open>\<open>analyze_codebase\<close>: what it prints and the dictionary it returns.\<close>

definition analyze_codebase :: "parser \<Rightarrow> filesystem \<Rightarrow> pystr \<Rightarrow> pystr list \<times> modules" where
  "analyze_codebase parse fs src_dir =
     (case fs src_dir of
        None \<Rightarrow> ([lit ''Warning: '' @ src_dir @ lit '' directory not found''], [])
      | Some es \<Rightarrow> scan_files parse (glob_py es) ([], []))"

section \<open>The diagram emitter\<close>

text \<open>The string literal that \<open>generate_mermaid_diagram\<close> assigns to \<open>diagram\<close>.\<close>

definition diagram :: pystr where
  "diagram = lit ''```mermaid
graph TB
    %% Entry Point
    CLI[\"CLI Entry Point<br/>src/cli.py\"] --> ARG[\"Argument Parser<br/>--load-data | --chat\"]

    %% Configuration Layer
    CONFIG[\"Configuration<br/>src/config.py\"] --> ENV[\"Environment Variables<br/>.env file<br/>GOOGLE_API_KEY\"]
    CONFIG --> PATHS[\"Path Configuration<br/>DATA_DIR, STORAGE_DIR<br/>YEARS, CHUNK_SIZE\"]

    %% Data Flow
    ARG --> LOAD{Command Type}

    %% Load Data Path
    LOAD -->|\"load-data\"| DL[\"Data Loader<br/>src/data_loader.py\"]
    DL --> UREAD[\"UnstructuredReader<br/>HTML Files\"]
    UREAD --> DOCS[\"Document Set<br/>2019-2022 UBER<br/>SEC 10-K Filings\"]
    DOCS --> IM[\"Index Manager<br/>src/index_manager.py\"]
    IM --> EMB[\"Google GenAI<br/>Embeddings\"]
    EMB --> VSI[\"Vector Store Index<br/>Per Year\"]
    VSI --> PERSIST[\"Persist Indices<br/>storage/year/\"]

    %% Chat Path
    LOAD -->|\"chat\"| LIM[\"Load Indices<br/>src/index_manager.py\"]
    LIM --> LIND[\"Load Persisted<br/>Vector Indices\"]

    %% Agent Creation
    LIND --> AGENT[\"Agent Creation<br/>src/ageny.py\"]
    AGENT --> TOOLS[\"Create Tools<br/>QueryEngineTool<br/>SubQuestionQueryEngine\"]

    %% LLM Integration
    AGENT --> GLLM[\"Google LLM Init<br/>src/google_llm_init.py\"]
    GLLM --> GEMINI[\"Google GenAI<br/>gemini-2.5-flash\"]

    %% System Components
    AGENT --> SP[\"System Prompt<br/>system_prompt.txt\"]
    SP --> FUNC_AGENT[\"FunctionAgent<br/>LlamaIndex\"]

    %% Chat Interface
    FUNC_AGENT --> CHAT[\"Chat Loop<br/>Interactive Input\"]
    CHAT --> CONSOLE[\"Custom Console<br/>src/custom_console.py\"]
    CONSOLE --> UI[\"User Interface<br/>Colors, Spinners,<br/>Timers, ASCII Art\"]

    %% External Dependencies
    subgraph \"External Libraries\"
        LLAMA[\"LlamaIndex Core<br/>VectorStoreIndex<br/>QueryEngine<br/>FunctionAgent\"]
        GAI[\"Google GenAI<br/>LLM + Embeddings\"]
        UNST[\"Unstructured.io<br/>Document Reader\"]
        DOTENV[\"python-dotenv<br/>Environment Loading\"]
    end

    %% Styling
    classDef entry fill:#e1f5fe,stroke:#01579b,stroke-width:2px,color:#01579b
    classDef config fill:#f3e5f5,stroke:#4a148c,stroke-width:2px,color:#4a148c
    classDef data fill:#e8f5e8,stroke:#1b5e20,stroke-width:2px,color:#1b5e20
    classDef ai fill:#fff3e0,stroke:#e65100,stroke-width:2px,color:#e65100
    classDef ui fill:#fce4ec,stroke:#880e4f,stroke-width:2px,color:#880e4f
    classDef external fill:#f5f5f5,stroke:#424242,stroke-width:1px,color:#424242

    class CLI,ARG entry
    class CONFIG,ENV,PATHS config
    class DL,UREAD,DOCS,IM,VSI,PERSIST,LIM,LIND data
    class AGENT,TOOLS,FUNC_AGENT,GLLM,GEMINI,SP ai
    class CHAT,CONSOLE,UI ui
    class LLAMA,GAI,UNST,DOTENV external

    %% Flow Labels
    CLI -.->|\"python -m src.cli\"| ARG
    DL -.->|\"Load UBER HTML\"| UREAD
    IM -.->|\"Create Vector Indices\"| VSI
    AGENT -.->|\"Setup Query Tools\"| TOOLS
    GLLM -.->|\"Initialize Gemini\"| GEMINI
    FUNC_AGENT -.->|\"RAG Chat\"| CHAT
    CONSOLE -.->|\"Format Output\"| UI
```''"

definition generate_mermaid_diagram :: "modules \<Rightarrow> pystr" where
  "generate_mermaid_diagram mods = diagram"

section \<open>Vocabulary of the properties\<close>

text \<open>
A line contains one of the two markers, as the \<open>if\<close> of \<open>get_module_description\<close> tests it.
\<close>

definition has_marker :: "pystr \<Rightarrow> bool" where
  "has_marker l = (contains dq3 l \<or> contains sq3 l)"

text \<open>
What \<open>get_module_description\<close> computes from a line before it truncates: the line stripped,
  both markers replaced by nothing, the result stripped again.
\<close>

definition stripped_line :: "pystr \<Rightarrow> pystr" where
  "stripped_line l = strip (replace (replace (strip l) dq3 []) sq3 [])"

text \<open>
The scanner skips an entry whose name starts with two underscores.
\<close>

definition excluded :: "dir_entry \<Rightarrow> bool" where
  "excluded e = startswith (entry_name e) (lit ''__'')"

text \<open>
The \<open>try\<close> block succeeds on an entry: it is read and its text is parsed. Otherwise
  \<open>failure\<close> is the message of the exception.
\<close>

definition analysable :: "parser \<Rightarrow> dir_entry \<Rightarrow> bool" where
  "analysable parse e =
     (case entry_read e of
        Inl m \<Rightarrow> False
      | Inr content \<Rightarrow> (case parse content of Inl m \<Rightarrow> False | Inr tree \<Rightarrow> True))"

definition failure :: "parser \<Rightarrow> dir_entry \<Rightarrow> pystr" where
  "failure parse e =
     (case entry_read e of
        Inl m \<Rightarrow> m
      | Inr content \<Rightarrow> (case parse content of Inl m \<Rightarrow> m | Inr tree \<Rightarrow> []))"

text \<open>
The dictionary that the \<open>try\<close> block stores for a file with the given text and tree.
\<close>

definition module_entry :: "dir_entry \<Rightarrow> pystr \<Rightarrow> ast \<Rightarrow> module_info" where
  "module_entry py_file content tree =
     \<lparr>info_file = lit ''src/'' @ entry_name py_file,
      info_description = get_module_description content (stem (entry_name py_file)),
      info_functions = take 3 (function_names (walk tree)),
      info_classes = take 2 (class_names (walk tree))\<rparr>"

definition analysed :: "parser \<Rightarrow> dir_entry \<Rightarrow> module_info" where
  "analysed parse e =
     module_entry e (projr (entry_read e)) (projr (parse (projr (entry_read e))))"

section \<open>Example inputs\<close>

text \<open>
A source text with a nested function, and the tree \<open>ast.parse\<close> gives for it: a
  \<open>Module\<close> whose children are the four statements; a \<open>FunctionDef\<close> has its \<open>arguments\<close>
  node and then its body, a \<open>ClassDef\<close> its body; \<open>arguments\<close> and \<open>Pass\<close> have no
  children. \<open>sample_parse\<close> agrees with \<open>ast.parse\<close> on the texts used below: this one, the
  empty text (a \<open>Module\<close> without children) and \<open>def (\<close>, a syntax error.
\<close>

definition sample_source :: pystr where
  "sample_source =
     lit ''def f():\<newline>    def h(): pass\<newline>def g(): pass\<newline>def k(): pass\<newline>class A: pass\<newline>''"

definition sample_tree :: ast where
  "sample_tree =
     Node OtherNode
       [Node (FunctionDef (lit ''f''))
          [Node OtherNode [],
           Node (FunctionDef (lit ''h'')) [Node OtherNode [], Node OtherNode []]],
        Node (FunctionDef (lit ''g'')) [Node OtherNode [], Node OtherNode []],
        Node (FunctionDef (lit ''k'')) [Node OtherNode [], Node OtherNode []],
        Node (ClassDef (lit ''A'')) [Node OtherNode []]]"

definition sample_parse :: parser where
  "sample_parse content =
     (if content = sample_source then Inr sample_tree
      else if content = [] then Inr (Node OtherNode [])
      else Inl (lit ''invalid syntax (<unknown>, line 1)''))"

text \<open>
Directories: \<open>py_entry dir name r\<close> is the entry \<open>dir/name\<close> whose reading gives \<open>r\<close>.
\<close>

definition py_entry :: "string \<Rightarrow> string \<Rightarrow> pystr + pystr \<Rightarrow> dir_entry" where
  "py_entry dir name r =
     \<lparr>entry_path = lit dir @ lit ''/'' @ lit name, entry_name = lit name, entry_read = r\<rparr>"

definition sample_dir :: "dir_entry list" where
  "sample_dir =
     [py_entry ''src'' ''cli.py'' (Inr sample_source),
      py_entry ''src'' ''__init__.py'' (Inr (lit ''def (\<newline>'')),
      py_entry ''src'' ''broken.py'' (Inr (lit ''def (\<newline>'')),
      py_entry ''src'' ''notes.txt'' (Inr []),
      py_entry ''src'' ''locked.py'' (Inl (lit ''[Errno 13] Permission denied'')),
      py_entry ''src'' ''empty.py'' (Inr [])]"

definition lib_dir :: "dir_entry list" where
  "lib_dir = [py_entry ''lib'' ''tool.py'' (Inr [])]"

definition sample_fs :: filesystem where
  "sample_fs path =
     (if path = lit ''src'' then Some sample_dir
      else if path = lit ''lib'' then Some lib_dir
      else None)"

definition broken_cli_dir :: "dir_entry list" where
  "broken_cli_dir =
     [py_entry ''src'' ''cli.py'' (Inr (lit ''def (\<newline>'')),
      py_entry ''src'' ''__init__.py'' (Inr [])]"

definition broken_cli_fs :: filesystem where
  "broken_cli_fs path = (if path = lit ''src'' then Some broken_cli_dir else None)"

definition long_name_dir :: "dir_entry list" where
  "long_name_dir =
     [py_entry ''src'' ''a_module_with_an_unusually_long_file_name.py'' (Inr [])]"

definition long_name_fs :: filesystem where
  "long_name_fs path = (if path = lit ''src'' then Some long_name_dir else None)"

definition cli_dir :: "dir_entry list" where
  "cli_dir =
     [py_entry ''src'' ''cli.py'' (Inr sample_source),
      py_entry ''src'' ''__init__.py'' (Inr [])]"

definition cli_fs :: filesystem where
  "cli_fs path = (if path = lit ''src'' then Some cli_dir else None)"

text \<open>
Two files that both read and parse and whose names have the same stem: pathlib takes no
  suffix from a name that only starts with a dot, so the stem of \<open>.py\<close> is \<open>.py\<close>, which is
  the stem of \<open>.py.py\<close> too.
\<close>

definition twin_dir :: "dir_entry list" where
  "twin_dir =
     [py_entry ''src'' ''.py'' (Inr []),
      py_entry ''src'' ''.py.py'' (Inr [])]"

definition twin_fs :: filesystem where
  "twin_fs path = (if path = lit ''src'' then Some twin_dir else None)"

section \<open>Strings: substrings and stripping\<close>

lemma startswith_iff: "startswith s p \<longleftrightarrow> (\<exists>post. s = p @ post)"
  by (induction s p rule: startswith.induct) auto

lemma contains_iff: "contains sub s \<longleftrightarrow> (\<exists>pre post. s = pre @ sub @ post)"
proof (induction s)
  case Nil
  then show ?case by auto
next
  case (Cons c cs)
  show ?case
  proof
    assume "contains sub (c # cs)"
    then consider "startswith (c # cs) sub" | "contains sub cs" by auto
    then show "\<exists>pre post. c # cs = pre @ sub @ post"
    proof cases
      case 1
      then obtain post where "c # cs = sub @ post" by (auto simp: startswith_iff)
      then have "c # cs = [] @ sub @ post" by simp
      then show ?thesis by blast
    next
      case 2
      then obtain pre post where "cs = pre @ sub @ post" using Cons.IH by auto
      then have "c # cs = (c # pre) @ sub @ post" by simp
      then show ?thesis by blast
    qed
  next
    assume "\<exists>pre post. c # cs = pre @ sub @ post"
    then obtain pre post where e: "c # cs = pre @ sub @ post" by blast
    show "contains sub (c # cs)"
    proof (cases pre)
      case Nil
      then have "startswith (c # cs) sub" using e startswith_iff by auto
      then show ?thesis by simp
    next
      case (Cons a pre')
      then have "cs = pre' @ sub @ post" using e by simp
      then show ?thesis using Cons.IH by auto
    qed
  qed
qed

lemma contains_rev: "contains (rev sub) (rev s) = contains sub s"
proof -
  have "(\<exists>pre post. rev s = pre @ rev sub @ post) \<longleftrightarrow> (\<exists>pre post. s = pre @ sub @ post)"
  proof
    assume "\<exists>pre post. rev s = pre @ rev sub @ post"
    then obtain pre post where "rev s = pre @ rev sub @ post" by blast
    then have "rev (rev s) = rev (pre @ rev sub @ post)" by simp
    then have "s = rev post @ sub @ rev pre" by simp
    then show "\<exists>pre post. s = pre @ sub @ post" by blast
  next
    assume "\<exists>pre post. s = pre @ sub @ post"
    then obtain pre post where "s = pre @ sub @ post" by blast
    then have "rev s = rev post @ rev sub @ rev pre" by simp
    then show "\<exists>pre post. rev s = pre @ rev sub @ post" by blast
  qed
  then show ?thesis by (simp add: contains_iff)
qed

lemma contains_dropWhile:
  assumes "sub \<noteq> []" "\<not> P (hd sub)"
  shows "contains sub (dropWhile P s) = contains sub s"
  using assms by (induction s) (auto simp: neq_Nil_conv)

lemma contains_strip:
  assumes "sub \<noteq> []" "\<not> isspace (hd sub)" "\<not> isspace (last sub)"
  shows "contains sub (strip s) = contains sub s"
proof -
  have r: "rev sub \<noteq> []" "\<not> isspace (hd (rev sub))"
    using assms by (simp_all add: hd_rev)
  have "contains sub (strip s) = contains (rev sub) (dropWhile isspace (rev (dropWhile isspace s)))"
    unfolding strip_def using contains_rev[of sub "rev (dropWhile isspace (rev (dropWhile isspace s)))"]
    by simp
  also have "\<dots> = contains (rev sub) (rev (dropWhile isspace s))"
    using r contains_dropWhile[of "rev sub" isspace] by simp
  also have "\<dots> = contains sub (dropWhile isspace s)" by (rule contains_rev)
  also have "\<dots> = contains sub s" using assms contains_dropWhile[of sub isspace] by simp
  finally show ?thesis .
qed

lemma dq3_eval: "dq3 = [34, 34, 34]" by (simp add: dq3_def lit_def)

lemma sq3_eval: "sq3 = [39, 39, 39]" by (simp add: sq3_def numeral_3_eq_3)

lemma has_marker_strip: "has_marker (strip l) = has_marker l"
  unfolding has_marker_def
  by (simp add: contains_strip dq3_eval sq3_eval isspace_def)

lemma lit_length: "length (lit s) = length s"
  by (simp add: lit_def)

section \<open>The resolver's two branches\<close>

lemma scan_lines_find:
  "scan_lines ls =
     map_option (\<lambda>l. if length (stripped_line l) > 40
                       then take 40 (stripped_line l) @ lit ''...'' else stripped_line l)
       (find has_marker ls)"
proof (induction ls)
  case Nil
  then show ?case by simp
next
  case (Cons l ls)
  have m: "(contains dq3 (strip l) \<or> contains sq3 (strip l)) = has_marker l"
    using has_marker_strip[of l] by (simp add: has_marker_def)
  show ?case using Cons.IH by (simp add: m stripped_line_def Let_def)
qed

lemma get_module_description_marker:
  assumes "find has_marker (take 5 (split content 10)) = Some l"
  shows "get_module_description content module_name =
           (if length (stripped_line l) > 40 then take 40 (stripped_line l) @ lit ''...''
            else stripped_line l)"
  using assms by (simp add: get_module_description_def scan_lines_find)

lemma get_module_description_no_marker:
  assumes "find has_marker (take 5 (split content 10)) = None"
  shows "get_module_description content module_name =
           (case map_of descriptions module_name of
              Some d \<Rightarrow> d | None \<Rightarrow> module_name @ lit '' module'')"
  using assms by (simp add: get_module_description_def scan_lines_find)

lemma find_None_iff_marker: "(find has_marker ls = None) = (\<forall>l \<in> set ls. \<not> has_marker l)"
  by (auto simp: find_None_iff)

lemma descriptions_keys:
  "map_of descriptions k = Some d \<Longrightarrow> d \<noteq> k @ lit '' module'' \<and> length d \<le> 40"
  by (auto simp: descriptions_def lit_def split: if_splits)

lemma descriptions_shape: "length descriptions = 7 \<and> distinct (map fst descriptions)"
  by (simp add: descriptions_def lit_def)

section \<open>The scanner's loop\<close>

lemma scan_files_step:
  "scan_files parse (e # es) (out, mods) =
     (if excluded e then scan_files parse es (out, mods)
      else if analysable parse e
        then scan_files parse es (out, AList.update (stem (entry_name e)) (analysed parse e) mods)
        else scan_files parse es (out @ [warn_file e (failure parse e)], mods))"
  by (simp add: excluded_def analysable_def failure_def analysed_def module_entry_def Let_def
      split: sum.splits)

lemma scan_files_out:
  "fst (scan_files parse es (out, mods)) =
     out @ map (\<lambda>e. warn_file e (failure parse e))
             (filter (\<lambda>e. \<not> excluded e \<and> \<not> analysable parse e) es)"
proof (induction es arbitrary: out mods)
  case Nil
  then show ?case by simp
next
  case (Cons e es)
  show ?case unfolding scan_files_step by (simp add: Cons.IH)
qed

lemma scan_files_keys:
  "fst ` set (snd (scan_files parse es (out, mods))) =
     fst ` set mods \<union>
     (\<lambda>e. stem (entry_name e)) ` {e \<in> set es. \<not> excluded e \<and> analysable parse e}"
proof (induction es arbitrary: out mods)
  case Nil
  then show ?case by simp
next
  case (Cons e es)
  have u: "fst ` set (AList.update k v mods) = insert k (fst ` set mods)" for k v
    using AList.dom_update[of k v mods] by simp
  show ?case unfolding scan_files_step by (auto simp: Cons.IH u)
qed

lemma scan_files_distinct:
  "distinct (map fst mods) \<Longrightarrow> distinct (map fst (snd (scan_files parse es (out, mods))))"
proof (induction es arbitrary: out mods)
  case Nil
  then show ?case by simp
next
  case (Cons e es)
  show ?case unfolding scan_files_step
    using Cons.prems by (auto intro!: Cons.IH simp: AList.distinct_update)
qed

lemma scan_files_untouched:
  assumes "\<forall>e \<in> set es. \<not> excluded e \<and> analysable parse e \<longrightarrow> stem (entry_name e) \<noteq> k"
  shows "map_of (snd (scan_files parse es (out, mods))) k = map_of mods k"
  using assms
proof (induction es arbitrary: out mods)
  case Nil
  then show ?case by simp
next
  case (Cons e es)
  have r: "\<forall>e \<in> set es. \<not> excluded e \<and> analysable parse e \<longrightarrow> stem (entry_name e) \<noteq> k"
    using Cons.prems by simp
  show ?case unfolding scan_files_step
    using Cons.prems by (auto simp: Cons.IH[OF r] AList.update_conv')
qed

lemma scan_files_entry:
  assumes "e \<in> set es" "\<not> excluded e" "analysable parse e"
    and "\<forall>e' \<in> set es. \<not> excluded e' \<and> analysable parse e'
           \<and> stem (entry_name e') = stem (entry_name e) \<longrightarrow> e' = e"
  shows "map_of (snd (scan_files parse es (out, mods))) (stem (entry_name e)) = Some (analysed parse e)"
  using assms
proof (induction es arbitrary: out mods)
  case Nil
  then show ?case by simp
next
  case (Cons x es)
  have u: "\<forall>e' \<in> set es. \<not> excluded e' \<and> analysable parse e'
           \<and> stem (entry_name e') = stem (entry_name e) \<longrightarrow> e' = e"
    using Cons.prems(4) by simp
  show ?case
  proof (cases "e \<in> set es")
    case True
    show ?thesis unfolding scan_files_step
      using Cons.IH[OF True Cons.prems(2,3) u] by simp
  next
    case False
    then have x: "x = e" using Cons.prems(1) by simp
    have n: "\<forall>e' \<in> set es. \<not> excluded e' \<and> analysable parse e'
               \<longrightarrow> stem (entry_name e') \<noteq> stem (entry_name e)"
      using u False by blast
    show ?thesis unfolding scan_files_step
      using Cons.prems(2,3) x by (simp add: scan_files_untouched[OF n] AList.update_conv')
  qed
qed

lemma scan_files_length:
  assumes "distinct (map (\<lambda>e. stem (entry_name e))
             (filter (\<lambda>e. \<not> excluded e \<and> analysable parse e) es))"
  shows "length (snd (scan_files parse es ([], []))) =
           length (filter (\<lambda>e. \<not> excluded e \<and> analysable parse e) es)"
proof -
  let ?good = "filter (\<lambda>e. \<not> excluded e \<and> analysable parse e) es"
  let ?mods = "snd (scan_files parse es ([], []))"
  have d: "distinct (map fst ?mods)" by (rule scan_files_distinct) simp
  have "length ?mods = length (map fst ?mods)" by simp
  also have "\<dots> = card (set (map fst ?mods))" using distinct_card[OF d] by simp
  also have "set (map fst ?mods) = set (map (\<lambda>e. stem (entry_name e)) ?good)"
    using scan_files_keys[of parse es "[]" "[]"] by auto
  also have "card (set (map (\<lambda>e. stem (entry_name e)) ?good)) = length (map (\<lambda>e. stem (entry_name e)) ?good)"
    using assms by (rule distinct_card)
  finally show ?thesis by simp
qed

lemma filter_three_way:
  "length (filter (\<lambda>e. \<not> E e \<and> A e) xs) + length (filter E xs)
     + length (filter (\<lambda>e. \<not> E e \<and> \<not> A e) xs) = length xs"
  by (induction xs) auto

lemma scan_files_fold:
  "snd (scan_files parse es (out, mods)) =
     foldl (\<lambda>m e. AList.update (stem (entry_name e)) (analysed parse e) m) mods
       (filter (\<lambda>e. \<not> excluded e \<and> analysable parse e) es)"
proof (induction es arbitrary: out mods)
  case Nil
  then show ?case by simp
next
  case (Cons e es)
  show ?case unfolding scan_files_step by (simp add: Cons.IH)
qed

lemma glob_py_pruned:
  "filter (\<lambda>e. \<not> excluded e \<and> analysable parse e) (glob_py (filter (analysable parse) es))
     = filter (\<lambda>e. \<not> excluded e \<and> analysable parse e) (glob_py es)"
  by (induction es) (auto simp: glob_py_def)

lemma scan_pruned:
  "snd (scan_files parse (glob_py (filter (analysable parse) es)) ([], []))
     = snd (scan_files parse (glob_py es) ([], []))"
  by (simp add: scan_files_fold glob_py_pruned)



lemma distinct_stems_unique:
  assumes "distinct (map f (filter P xs))" "e \<in> set xs" "P e"
  shows "\<forall>e' \<in> set xs. P e' \<and> f e' = f e \<longrightarrow> e' = e"
proof -
  have "inj_on f (set (filter P xs))" using assms(1) by (simp add: distinct_map)
  then show ?thesis using assms(2,3) by (auto dest: inj_onD)
qed

lemma cli_names:
  "endswith (lit ''cli.py'') (lit ''.py'')"
  "endswith (lit ''__init__.py'') (lit ''.py'')"
  "startswith (lit ''__init__.py'') (lit ''__'')"
  "\<not> startswith (lit ''cli.py'') (lit ''__'')"
  "stem (lit ''cli.py'') = lit ''cli''"
  "map_of descriptions (lit ''cli'') = Some (lit ''CLI with argument parsing'')"
  by code_simp+

section \<open>Walking the tree\<close>



lemma walk_queue_length: "length (walk_queue todo) = sum_list (map ast_size todo)"
  by (induction todo rule: walk_queue.induct) auto



section \<open>The claims\<close>

text \<open>
C1: \<open>generate_mermaid_diagram\<close> returns the same string for every pair of module mappings,
  the empty one included: it is the fixed text \<open>diagram\<close>, whatever was discovered.
\<close>

theorem generate_mermaid_diagram_constant:
  "generate_mermaid_diagram m1 = generate_mermaid_diagram m2
   \<and> generate_mermaid_diagram m1 = generate_mermaid_diagram []
   \<and> generate_mermaid_diagram m1 = diagram"
  by (simp add: generate_mermaid_diagram_def)

text \<open>
C2: when a line among the first five contains a marker, the resolver returns the first such
  line with markers and surrounding whitespace stripped: unchanged when that has at most 40
  characters, else its first 40 characters followed by three dots (43 characters).
\<close>

theorem docstring_line_description:
  assumes "find has_marker (take 5 (split content 10)) = Some l"
  shows "(length (stripped_line l) \<le> 40 \<longrightarrow>
            get_module_description content module_name = stripped_line l)
       \<and> (40 < length (stripped_line l) \<longrightarrow>
            get_module_description content module_name = take 40 (stripped_line l) @ lit ''...''
            \<and> length (get_module_description content module_name) = 43)"
  using get_module_description_marker[OF assms] by (simp add: lit_length)

text \<open>
The two examples of the specification: the line \<open>"""Example description here"""\<close>, and
  a docstring line of 60 characters.
\<close>

theorem docstring_line_description_witness:
  "find has_marker (take 5 (split (lit ''\"\"\"Example description here\"\"\"'') 10))
     = Some (lit ''\"\"\"Example description here\"\"\"'')
   \<and> get_module_description (lit ''\"\"\"Example description here\"\"\"'') (lit ''cli'')
     = lit ''Example description here''
   \<and> find has_marker (take 5 (split (lit ''import os\<newline>  \"\"\"This docstring line is sixty characters long, exactly 60 ..!\"\"\"\<newline>'') 10))
     = Some (lit ''  \"\"\"This docstring line is sixty characters long, exactly 60 ..!\"\"\"'')
   \<and> length (stripped_line (lit ''  \"\"\"This docstring line is sixty characters long, exactly 60 ..!\"\"\"'')) = 60
   \<and> get_module_description (lit ''import os\<newline>  \"\"\"This docstring line is sixty characters long, exactly 60 ..!\"\"\"\<newline>'') (lit ''cli'')
     = lit ''This docstring line is sixty characters ...''"
proof -
  have h1: "find has_marker (take 5 (split (lit ''\"\"\"Example description here\"\"\"'') 10))
     = Some (lit ''\"\"\"Example description here\"\"\"'')"
    by code_simp
  have e1: "stripped_line (lit ''\"\"\"Example description here\"\"\"'') = lit ''Example description here''"
    by code_simp
  have h2: "find has_marker (take 5 (split (lit ''import os\<newline>  \"\"\"This docstring line is sixty characters long, exactly 60 ..!\"\"\"\<newline>'') 10))
     = Some (lit ''  \"\"\"This docstring line is sixty characters long, exactly 60 ..!\"\"\"'')"
    by code_simp
  have e2: "stripped_line (lit ''  \"\"\"This docstring line is sixty characters long, exactly 60 ..!\"\"\"'')
      = lit ''This docstring line is sixty characters long, exactly 60 ..!''"
    by code_simp
  have t2: "take 40 (lit ''This docstring line is sixty characters long, exactly 60 ..!'') @ lit ''...''
      = lit ''This docstring line is sixty characters ...''"
    by code_simp
  show ?thesis
    using docstring_line_description[OF h1, of "lit ''cli''"]
      docstring_line_description[OF h2, of "lit ''cli''"] h1 h2 e1 e2 t2
    by (simp add: lit_length)
qed

text \<open>
C3: when no line among the first five contains a marker, the resolver returns the value of
  the table for a module name that is one of its seven keys (a value that is never the
  synthesized string), and the name followed by \<open> module\<close> for any other name.
\<close>

theorem fallback_table_or_synthesized:
  assumes "\<forall>l \<in> set (take 5 (split content 10)). \<not> has_marker l"
  shows "(\<forall>d. map_of descriptions module_name = Some d \<longrightarrow>
            get_module_description content module_name = d \<and> d \<noteq> module_name @ lit '' module'')
       \<and> (module_name \<notin> fst ` set descriptions \<longrightarrow>
            get_module_description content module_name = module_name @ lit '' module'')
       \<and> length descriptions = 7 \<and> distinct (map fst descriptions)"
proof -
  have n: "find has_marker (take 5 (split content 10)) = None"
    using assms by (simp add: find_None_iff_marker)
  have a: "\<forall>d. map_of descriptions module_name = Some d \<longrightarrow>
            get_module_description content module_name = d \<and> d \<noteq> module_name @ lit '' module''"
    using get_module_description_no_marker[OF n, of "module_name"] descriptions_keys[of "module_name"]
    by simp
  have b: "module_name \<notin> fst ` set descriptions \<longrightarrow>
            get_module_description content module_name = module_name @ lit '' module''"
    using get_module_description_no_marker[OF n, of "module_name"]
    by (simp add: map_of_eq_None_iff[symmetric])
  show ?thesis using a b descriptions_shape by simp
qed

theorem fallback_table_or_synthesized_witness:
  "find has_marker (take 5 (split (lit ''import os\<newline>'') 10)) = None
   \<and> get_module_description (lit ''import os\<newline>'') (lit ''config'') = lit ''Configuration & environment''
   \<and> get_module_description (lit ''import os\<newline>'') (lit ''helpers'') = lit ''helpers module''"
proof -
  have n: "find has_marker (take 5 (split (lit ''import os\<newline>'') 10)) = None" by code_simp
  have h: "\<forall>l \<in> set (take 5 (split (lit ''import os\<newline>'') 10)). \<not> has_marker l"
    using n by (simp add: find_None_iff_marker)
  have a: "map_of descriptions (lit ''config'') = Some (lit ''Configuration & environment'')"
    by code_simp
  have b: "lit ''helpers'' \<notin> fst ` set descriptions"
    by (simp add: descriptions_def lit_def)
  have c: "lit ''helpers'' @ lit '' module'' = lit ''helpers module''" by (simp add: lit_def)
  show ?thesis
    using fallback_table_or_synthesized[OF h, of "lit ''config''"]
      fallback_table_or_synthesized[OF h, of "lit ''helpers''"] n a b c by simp
qed

text \<open>
C4: for a directory that does not exist the scanner prints one warning and returns the empty
  mapping. The model has no other outcome: nothing in the function raises outside the
  \<open>try\<close> block.
\<close>

theorem missing_directory:
  assumes "fs src_dir = None"
  shows "analyze_codebase parse fs src_dir =
           ([lit ''Warning: '' @ src_dir @ lit '' directory not found''], [])"
  using assms by (simp add: analyze_codebase_def)

theorem missing_directory_witness:
  "sample_fs (lit ''nowhere'') = None
   \<and> analyze_codebase sample_parse sample_fs (lit ''nowhere'') =
       ([lit ''Warning: nowhere directory not found''], [])"
proof -
  have h: "sample_fs (lit ''nowhere'') = None" by code_simp
  have e: "lit ''Warning: '' @ lit ''nowhere'' @ lit '' directory not found''
             = lit ''Warning: nowhere directory not found''"
    by (simp add: lit_def)
  show ?thesis using missing_directory[where fs=sample_fs and src_dir="lit ''nowhere''" and parse=sample_parse, OF h] h e by simp
qed

text \<open>
C5, as the code has it: every candidate (a \<open>*.py\<close> entry not excluded by its name) whose
  reading or parsing fails gives one warning, in order, and no entry, and the scan goes on:
  the mapping is the one returned for the directory without the files that cannot be read or
  parsed, and its keys are the stems of the other candidates. When these stems are pairwise
  distinct, the size of the mapping plus the excluded entries plus the failing candidates is
  the number of \<open>*.py\<close> entries, and each candidate that was analysed keeps its entry.
\<close>

theorem scan_keeps_other_files:
  assumes "fs src_dir = Some es"
  shows "fst (analyze_codebase parse fs src_dir) =
           map (\<lambda>e. warn_file e (failure parse e))
             (filter (\<lambda>e. \<not> excluded e \<and> \<not> analysable parse e) (glob_py es))
       \<and> snd (analyze_codebase parse (fs(src_dir := Some (filter (analysable parse) es))) src_dir)
           = snd (analyze_codebase parse fs src_dir)
       \<and> fst ` set (snd (analyze_codebase parse fs src_dir)) =
           (\<lambda>e. stem (entry_name e)) `
             {e \<in> set (glob_py es). \<not> excluded e \<and> analysable parse e}
       \<and> (distinct (map (\<lambda>e. stem (entry_name e))
             (filter (\<lambda>e. \<not> excluded e \<and> analysable parse e) (glob_py es))) \<longrightarrow>
            length (snd (analyze_codebase parse fs src_dir))
              + length (filter excluded (glob_py es))
              + length (filter (\<lambda>e. \<not> excluded e \<and> \<not> analysable parse e) (glob_py es))
              = length (glob_py es)
            \<and> (\<forall>e \<in> set (glob_py es). \<not> excluded e \<and> analysable parse e \<longrightarrow>
                  map_of (snd (analyze_codebase parse fs src_dir)) (stem (entry_name e))
                    = Some (analysed parse e)))"
proof -
  let ?cs = "glob_py es"
  let ?good = "\<lambda>e. \<not> excluded e \<and> analysable parse e"
  have r: "analyze_codebase parse fs src_dir = scan_files parse ?cs ([], [])"
    using assms by (simp add: analyze_codebase_def)
  have a: "fst (analyze_codebase parse fs src_dir) =
           map (\<lambda>e. warn_file e (failure parse e))
             (filter (\<lambda>e. \<not> excluded e \<and> \<not> analysable parse e) ?cs)"
    unfolding r by (simp add: scan_files_out)
  have p: "snd (analyze_codebase parse (fs(src_dir := Some (filter (analysable parse) es))) src_dir)
           = snd (analyze_codebase parse fs src_dir)"
    unfolding r by (simp add: analyze_codebase_def scan_pruned)
  have b: "fst ` set (snd (analyze_codebase parse fs src_dir)) =
           (\<lambda>e. stem (entry_name e)) ` {e \<in> set ?cs. ?good e}"
    unfolding r by (simp add: scan_files_keys)
  have c: "length (snd (analyze_codebase parse fs src_dir))
              + length (filter excluded ?cs)
              + length (filter (\<lambda>e. \<not> excluded e \<and> \<not> analysable parse e) ?cs)
              = length ?cs"
    if d: "distinct (map (\<lambda>e. stem (entry_name e)) (filter ?good ?cs))"
    unfolding r scan_files_length[OF d]
    by (rule filter_three_way)
  have e: "\<forall>e \<in> set ?cs. ?good e \<longrightarrow>
             map_of (snd (analyze_codebase parse fs src_dir)) (stem (entry_name e))
               = Some (analysed parse e)"
    if d: "distinct (map (\<lambda>e. stem (entry_name e)) (filter ?good ?cs))"
  proof (intro ballI impI)
    fix e assume m: "e \<in> set ?cs" and g: "?good e"
    have u: "\<forall>e' \<in> set ?cs. \<not> excluded e' \<and> analysable parse e'
               \<and> stem (entry_name e') = stem (entry_name e) \<longrightarrow> e' = e"
      using distinct_stems_unique[OF d m g] by blast
    show "map_of (snd (analyze_codebase parse fs src_dir)) (stem (entry_name e))
            = Some (analysed parse e)"
      unfolding r using g by (intro scan_files_entry[OF m _ _ u]) simp_all
  qed
  show ?thesis using a p b c e by blast
qed

text \<open>
The theorem of C5 on a directory with two candidates that fail, one by a syntax error and
  one on reading, an excluded file and a file that is no \<open>*.py\<close> file.
\<close>

theorem scan_keeps_other_files_witness:
  "sample_fs (lit ''src'') = Some sample_dir
   \<and> map entry_name (glob_py sample_dir) =
       [lit ''cli.py'', lit ''__init__.py'', lit ''broken.py'', lit ''locked.py'', lit ''empty.py'']
   \<and> length (fst (analyze_codebase sample_parse sample_fs (lit ''src''))) = 2
   \<and> length (snd (analyze_codebase sample_parse sample_fs (lit ''src''))) = 2
   \<and> fst ` set (snd (analyze_codebase sample_parse sample_fs (lit ''src''))) =
       {lit ''cli'', lit ''empty''}"
proof -
  have h: "sample_fs (lit ''src'') = Some sample_dir" by code_simp
  have n: "map entry_name (glob_py sample_dir) =
       [lit ''cli.py'', lit ''__init__.py'', lit ''broken.py'', lit ''locked.py'', lit ''empty.py'']"
    by code_simp
  have g: "map (\<lambda>e. stem (entry_name e))
             (filter (\<lambda>e. \<not> excluded e \<and> analysable sample_parse e) (glob_py sample_dir))
           = [lit ''cli'', lit ''empty'']"
    by code_simp
  have d: "distinct (map (\<lambda>e. stem (entry_name e))
             (filter (\<lambda>e. \<not> excluded e \<and> analysable sample_parse e) (glob_py sample_dir)))"
    unfolding g by (simp add: lit_def)
  have x: "length (filter excluded (glob_py sample_dir)) = 1" by code_simp
  have b: "length (filter (\<lambda>e. \<not> excluded e \<and> \<not> analysable sample_parse e) (glob_py sample_dir)) = 2"
    by code_simp
  have t: "length (glob_py sample_dir) = 5" using arg_cong[OF n, of length] by simp
  have s: "(\<lambda>e. stem (entry_name e)) `
             {e \<in> set (glob_py sample_dir). \<not> excluded e \<and> analysable sample_parse e}
           = {lit ''cli'', lit ''empty''}"
    using arg_cong[OF g, of set] by simp
  show ?thesis
    using scan_keeps_other_files[where fs=sample_fs and src_dir="lit ''src''" and parse=sample_parse, OF h] h n d x b t s by simp
qed

text \<open>
The count of C5 as it is stated fails when two files share a stem: \<open>.py\<close> and \<open>.py.py\<close>
  are both read and parsed, no file is invalid or excluded, and the mapping has the single
  key \<open>.py\<close>, whose entry is the one of the file scanned last, so the entry of the first
  file is not preserved.
\<close>

theorem scan_size_counterexample:
  "twin_fs (lit ''src'') = Some twin_dir
   \<and> map entry_name (glob_py twin_dir) = [lit ''.py'', lit ''.py.py'']
   \<and> filter (\<lambda>e. \<not> analysable sample_parse e) (glob_py twin_dir) = []
   \<and> filter excluded (glob_py twin_dir) = []
   \<and> fst (analyze_codebase sample_parse twin_fs (lit ''src'')) = []
   \<and> map fst (snd (analyze_codebase sample_parse twin_fs (lit ''src''))) = [lit ''.py'']
   \<and> map (\<lambda>kv. info_file (snd kv)) (snd (analyze_codebase sample_parse twin_fs (lit ''src'')))
       = [lit ''src/.py.py'']
   \<and> int (length (snd (analyze_codebase sample_parse twin_fs (lit ''src'')))) \<noteq>
       int (length (glob_py twin_dir))
         - int (length (filter (\<lambda>e. \<not> analysable sample_parse e) (glob_py twin_dir)))
         - int (length (filter excluded (glob_py twin_dir)))"
proof -
  have h: "twin_fs (lit ''src'') = Some twin_dir" by code_simp
  have n: "map entry_name (glob_py twin_dir) = [lit ''.py'', lit ''.py.py'']" by code_simp
  have c: "filter (\<lambda>e. \<not> analysable sample_parse e) (glob_py twin_dir) = []" by code_simp
  have d: "filter excluded (glob_py twin_dir) = []" by code_simp
  have w: "fst (analyze_codebase sample_parse twin_fs (lit ''src'')) = []" by code_simp
  have k: "map fst (snd (analyze_codebase sample_parse twin_fs (lit ''src''))) = [lit ''.py'']"
    by code_simp
  have f: "map (\<lambda>kv. info_file (snd kv)) (snd (analyze_codebase sample_parse twin_fs (lit ''src'')))
       = [lit ''src/.py.py'']"
    by code_simp
  have a: "length (snd (analyze_codebase sample_parse twin_fs (lit ''src''))) = 1"
    using arg_cong[OF k, of length] by simp
  have b: "length (glob_py twin_dir) = 2" using arg_cong[OF n, of length] by simp
  show ?thesis unfolding a b c d using h n w k f by simp
qed



text \<open>
C7, as the code has it: a description taken from a docstring line or from the table has at
  most 43 characters; a synthesized one has the length of the module name plus 7.
\<close>

theorem description_length_bound:
  "(find has_marker (take 5 (split content 10)) \<noteq> None \<or> module_name \<in> fst ` set descriptions
      \<longrightarrow> length (get_module_description content module_name) \<le> 43)
   \<and> (find has_marker (take 5 (split content 10)) = None \<and> module_name \<notin> fst ` set descriptions
      \<longrightarrow> length (get_module_description content module_name) = length module_name + 7)"
proof -
  have a: "length (get_module_description content module_name) \<le> 43"
    if "find has_marker (take 5 (split content 10)) = Some l" for l
    using get_module_description_marker[OF that, of "module_name"] by (simp add: lit_length)
  have b: "length (get_module_description content module_name) \<le> 43"
    if n: "find has_marker (take 5 (split content 10)) = None"
      and k: "module_name \<in> fst ` set descriptions"
  proof -
    obtain d where d: "map_of descriptions module_name = Some d"
      using k by (metis map_of_eq_None_iff not_Some_eq)
    then show ?thesis
      using get_module_description_no_marker[OF n, of "module_name"] descriptions_keys[OF d]
      by simp
  qed
  have c: "length (get_module_description content module_name) = length module_name + 7"
    if "find has_marker (take 5 (split content 10)) = None"
      and "module_name \<notin> fst ` set descriptions"
    using get_module_description_no_marker[OF that(1), of "module_name"] that(2)
    by (simp add: map_of_eq_None_iff[symmetric] lit_length)
  show ?thesis using a b c by (cases "find has_marker (take 5 (split content 10))") auto
qed

theorem description_length_bound_witness:
  "find has_marker (take 5 (split [] 10)) = None
   \<and> length (get_module_description [] (lit ''cli'')) \<le> 43
   \<and> length (get_module_description [] (lit ''a_module_with_an_unusually_long_file_name'')) = 48"
proof -
  have n: "find has_marker (take 5 (split [] 10)) = None" by code_simp
  have a: "lit ''cli'' \<in> fst ` set descriptions" by (simp add: descriptions_def)
  have b: "lit ''a_module_with_an_unusually_long_file_name'' \<notin> fst ` set descriptions"
    by (simp add: descriptions_def lit_def)
  show ?thesis
    using description_length_bound[of "[]" "lit ''cli''"]
      description_length_bound[of "[]" "lit ''a_module_with_an_unusually_long_file_name''"]
      n a b by (simp add: lit_length)
qed

text \<open>
The bound of C7 fails for a long file name without docstring: the scanner stores a
  description of 48 characters.
\<close>

theorem description_length_counterexample:
  "long_name_fs (lit ''src'') = Some long_name_dir
   \<and> map (\<lambda>kv. length (info_description (snd kv)))
       (snd (analyze_codebase sample_parse long_name_fs (lit ''src''))) = [48]
   \<and> \<not> length (get_module_description [] (lit ''a_module_with_an_unusually_long_file_name'')) \<le> 43"
  by code_simp

text \<open>
C8: scanning the directory \<open>lib\<close>, the scanner reads \<open>lib/tool.py\<close> and records the path
  \<open>src/tool.py\<close>: the field is built from the fixed prefix \<open>src/\<close>, not from \<open>src_dir\<close>.
\<close>

theorem file_field_ignores_src_dir:
  "sample_fs (lit ''lib'') = Some lib_dir
   \<and> map entry_path lib_dir = [lit ''lib/tool.py'']
   \<and> map (\<lambda>kv. info_file (snd kv)) (snd (analyze_codebase sample_parse sample_fs (lit ''lib'')))
       = [lit ''src/tool.py'']"
  by code_simp

text \<open>
C9, as the code has it: for a directory that holds exactly \<open>cli.py\<close> and \<open>__init__.py\<close>,
  where \<open>cli.py\<close> is read and parsed and has no marker in its first five lines, the scanner
  prints nothing and returns one entry, keyed \<open>cli\<close>, with the description of the table.
\<close>

theorem cli_scenario:
  assumes "fs src_dir = Some es"
    and "es = [cli, init] \<or> es = [init, cli]"
    and "entry_name cli = lit ''cli.py''" and "entry_name init = lit ''__init__.py''"
    and "entry_read cli = Inr content" and "parse content = Inr tree"
    and "find has_marker (take 5 (split content 10)) = None"
  shows "\<exists>info. analyze_codebase parse fs src_dir = ([], [(lit ''cli'', info)])
           \<and> info_description info = lit ''CLI with argument parsing''"
proof -
  have d: "get_module_description content (lit ''cli'') = lit ''CLI with argument parsing''"
    using get_module_description_no_marker[OF assms(7), of "lit ''cli''"] cli_names(6) by simp
  have "analyze_codebase parse fs src_dir =
          ([], [(lit ''cli'', module_entry cli content tree)])"
    using assms(2)
  proof
    assume "es = [cli, init]"
    then show ?thesis
      using assms(1,3-6) cli_names
      by (simp add: analyze_codebase_def glob_py_def module_entry_def Let_def)
  next
    assume "es = [init, cli]"
    then show ?thesis
      using assms(1,3-6) cli_names
      by (simp add: analyze_codebase_def glob_py_def module_entry_def Let_def)
  qed
  then show ?thesis using d assms(3) cli_names(5) by (simp add: module_entry_def)
qed

theorem cli_scenario_witness:
  "cli_fs (lit ''src'') = Some cli_dir
   \<and> map entry_name cli_dir = [lit ''cli.py'', lit ''__init__.py'']
   \<and> find has_marker (take 5 (split sample_source 10)) = None
   \<and> map fst (snd (analyze_codebase sample_parse cli_fs (lit ''src''))) = [lit ''cli'']
   \<and> map (\<lambda>kv. info_description (snd kv)) (snd (analyze_codebase sample_parse cli_fs (lit ''src'')))
       = [lit ''CLI with argument parsing'']"
proof -
  let ?cli = "py_entry ''src'' ''cli.py'' (Inr sample_source)"
  let ?init = "py_entry ''src'' ''__init__.py'' (Inr [])"
  have h: "cli_fs (lit ''src'') = Some cli_dir" by code_simp
  have n: "map entry_name cli_dir = [lit ''cli.py'', lit ''__init__.py'']" by code_simp
  have o: "cli_dir = [?cli, ?init] \<or> cli_dir = [?init, ?cli]" by (simp add: cli_dir_def)
  have a: "entry_name ?cli = lit ''cli.py''" by (simp add: py_entry_def)
  have b: "entry_name ?init = lit ''__init__.py''" by (simp add: py_entry_def)
  have c: "entry_read ?cli = Inr sample_source" by (simp add: py_entry_def)
  have p: "sample_parse sample_source = Inr sample_tree" by (simp add: sample_parse_def)
  have m: "find has_marker (take 5 (split sample_source 10)) = None" by code_simp
  show ?thesis
    using cli_scenario[where fs=cli_fs and src_dir="lit ''src''" and parse=sample_parse and content=sample_source, OF h o a b c p m] h n m by auto
qed

text \<open>
The scenario of C9 as it is stated fails when \<open>cli.py\<close> does not parse: the mapping is
  empty.
\<close>

theorem cli_scenario_counterexample:
  "broken_cli_fs (lit ''src'') = Some broken_cli_dir
   \<and> map entry_name broken_cli_dir = [lit ''cli.py'', lit ''__init__.py'']
   \<and> map entry_read broken_cli_dir = [Inr (lit ''def (\<newline>''), Inr []]
   \<and> find has_marker (take 5 (split (lit ''def (\<newline>'') 10)) = None
   \<and> snd (analyze_codebase sample_parse broken_cli_fs (lit ''src'')) = []"
  by code_simp

text \<open>
C10: when the first line with a marker among the first five reduces to the empty string, the
  resolver returns the empty string, whatever the module name: neither the table nor the
  synthesized string is used.
\<close>

theorem empty_docstring_line:
  assumes "find has_marker (take 5 (split content 10)) = Some l"
    and "stripped_line l = []"
  shows "get_module_description content module_name = []"
  using get_module_description_marker[OF assms(1)] assms(2) by simp

theorem empty_docstring_line_witness:
  "find has_marker (take 5 (split (lit ''\"\"\"\<newline>Command line entry point.\<newline>\"\"\"\<newline>'') 10))
     = Some (lit ''\"\"\"'')
   \<and> stripped_line (lit ''\"\"\"'') = []
   \<and> get_module_description (lit ''\"\"\"\<newline>Command line entry point.\<newline>\"\"\"\<newline>'') (lit ''cli'') = []"
proof -
  have h: "find has_marker (take 5 (split (lit ''\"\"\"\<newline>Command line entry point.\<newline>\"\"\"\<newline>'') 10))
     = Some (lit ''\"\"\"'')"
    by code_simp
  have e: "stripped_line (lit ''\"\"\"'') = []" by code_simp
  show ?thesis using empty_docstring_line[OF h e, of "lit ''cli''"] h e by simp
qed

end
